theory Spec2Isabelle
  imports Complex_Main
begin

section \<open>The forward command controller (new components)\<close>

text \<open>
  A shallow embedding of \<^verbatim>\<open>forward_command_controller_new_components.cpp\<close>.
  The controller object is a record of its members; every member function takes the
  controller and the state of the world outside it and returns both, updated.
  The resource manager, the joint components behind the handles and the parameter
  table of the lifecycle node are not part of that file: their behaviour is a
  parameter of the model (\<open>collaborators\<close>), their state an abstract world \<open>'e\<close>.
  Logging has no effect on any member and is left out; the command values are never
  inspected by the controller, so their type \<open>'d\<close> is left open.
\<close>

subsection \<open>Return codes and parameters\<close>

text \<open>\<^verbatim>\<open>rclcpp_lifecycle::...::CallbackReturn\<close>.\<close>

datatype CallbackReturn = CallbackReturn_SUCCESS | CallbackReturn_FAILURE | CallbackReturn_ERROR

text \<open>\<^verbatim>\<open>controller_interface::return_type\<close>.\<close>

datatype return_type = SUCCESS | ERROR

text \<open>
  \<^verbatim>\<open>hardware_interface::return_type\<close>: the controller only compares with \<open>OK\<close>;
  \<open>NOT_OK\<close> stands for every other code.
\<close>

datatype hardware_return_type = OK | NOT_OK

text \<open>\<^verbatim>\<open>rclcpp_lifecycle::State\<close>, the argument of the transition callbacks (never read).\<close>

datatype State = PRIMARY_STATE_UNKNOWN | PRIMARY_STATE_UNCONFIGURED | PRIMARY_STATE_INACTIVE
  | PRIMARY_STATE_ACTIVE | PRIMARY_STATE_FINALIZED

text \<open>
  \<^verbatim>\<open>rclcpp::Parameter\<close>: the two types the controller asks for, and one constructor for
  all the others. \<^verbatim>\<open>as_string_array()\<close> and \<^verbatim>\<open>as_string()\<close> throw when the parameter
  has another type.
\<close>

datatype Parameter = PARAMETER_STRING string | PARAMETER_STRING_ARRAY "string list"
  | PARAMETER_OTHER

datatype exception = ParameterTypeException

fun as_string_array :: "Parameter \<Rightarrow> exception + string list" where
  "as_string_array (PARAMETER_STRING_ARRAY xs) = Inr xs"
| "as_string_array _ = Inl ParameterTypeException"

fun as_string :: "Parameter \<Rightarrow> exception + string" where
  "as_string (PARAMETER_STRING s) = Inr s"
| "as_string _ = Inl ParameterTypeException"

text \<open>
  The lifecycle node, as far as the controller reads it: \<^verbatim>\<open>get_parameter(name, out)\<close>
  returns false (here \<open>None\<close>) when the parameter is not set.
\<close>

record LifecycleNode =
  get_parameter :: "string \<rightharpoonup> Parameter"

subsection \<open>The collaborators\<close>

text \<open>
  The calls the controller makes on objects defined elsewhere, over the world \<open>'e\<close>:
  \<^item> \<open>lock\<close>: \<^verbatim>\<open>resource_manager_.lock()\<close> gives a usable pointer;
  \<^item> \<open>check_command_interfaces\<close>: a query of the resource manager;
  \<^item> \<open>claim_command_handle\<close>: returns a code, the handle written to the out-parameter,
    and the world after the claim;
  \<^item> \<open>set_command\<close>: the call on the joint behind a handle, returning a code and the
    world after the write.
\<close>

record ('h, 'd, 'e) collaborators =
  lock :: "'e \<Rightarrow> bool"
  check_command_interfaces :: "string \<Rightarrow> string list \<Rightarrow> 'e \<Rightarrow> hardware_return_type"
  claim_command_handle :: "string \<Rightarrow> string list \<Rightarrow> 'e \<Rightarrow> hardware_return_type \<times> 'h \<times> 'e"
  set_command :: "'h \<Rightarrow> 'd list \<Rightarrow> string list \<Rightarrow> 'e \<Rightarrow> hardware_return_type \<times> 'e"

subsection \<open>The controller object\<close>

text \<open>
  The members: the handle vector, the interface vector, the real-time buffer holding
  the latest message (\<open>None\<close> is the null pointer it is constructed with; the buffer is
  modelled by the value a read returns) and the subscription (\<open>None\<close> is the null
  pointer, \<open>Some topic\<close> a subscription to that topic). The members are written
  without the trailing underscore of the source, which a name cannot end with here.
\<close>

record ('h, 'd) controller =
  joint_handles :: "'h list"
  interfaces :: "string list"
  rt_command_ptr :: "'d list option"
  joints_command_subscriber :: "string option"

text \<open>The constructor.\<close>

definition ForwardCommandControllerNewComponents :: "('h, 'd) controller" where
  "ForwardCommandControllerNewComponents =
     \<lparr>joint_handles = [], interfaces = [], rt_command_ptr = None,
      joints_command_subscriber = None\<rparr>"

text \<open>The subscription callback: \<^verbatim>\<open>rt_command_ptr_.writeFromNonRT(msg)\<close>.\<close>

definition commands_callback :: "'d list \<Rightarrow> ('h, 'd) controller \<Rightarrow> ('h, 'd) controller" where
  "commands_callback msg c = c\<lparr>rt_command_ptr := Some msg\<rparr>"

subsection \<open>on\_configure\<close>

text \<open>
  The first loop: every joint is checked with the interface vector; the first joint
  that is not OK ends the function. \<open>True\<close> means the loop ran to its end.
\<close>

fun check_loop :: "('h, 'd, 'e) collaborators \<Rightarrow> string list \<Rightarrow> string list \<Rightarrow> 'e \<Rightarrow> bool" where
  "check_loop ops [] ifs e = True"
| "check_loop ops (joint_name # rest) ifs e =
     (if check_command_interfaces ops joint_name ifs e \<noteq> OK then False
      else check_loop ops rest ifs e)"

text \<open>
  The second loop: every joint is claimed in turn and its handle appended to
  \<^verbatim>\<open>joint_handles_\<close>; the first claim that is not OK clears \<^verbatim>\<open>joint_handles_\<close> and ends
  the function. The result is whether the loop ran to its end, \<^verbatim>\<open>joint_handles_\<close>
  and the world.
\<close>

fun claim_loop ::
  "('h, 'd, 'e) collaborators \<Rightarrow> string list \<Rightarrow> string list \<Rightarrow> 'h list \<Rightarrow> 'e \<Rightarrow> bool \<times> 'h list \<times> 'e"
where
  "claim_loop ops [] ifs hs e = (True, hs, e)"
| "claim_loop ops (joint_name # rest) ifs hs e =
     (case claim_command_handle ops joint_name ifs e of
        (rc, joint_handle, e') \<Rightarrow>
          if rc \<noteq> OK then (False, [], e')
          else claim_loop ops rest ifs (hs @ [joint_handle]) e')"

text \<open>
  \<open>Inl\<close> is an exception leaving the function (thrown before any member is written, so
  the controller and the world are as before the call); \<open>Inr\<close> is a return.
\<close>

definition on_configure ::
  "('h, 'd, 'e) collaborators \<Rightarrow> LifecycleNode \<Rightarrow> State \<Rightarrow> ('h, 'd) controller \<Rightarrow> 'e
     \<Rightarrow> exception + (CallbackReturn \<times> ('h, 'd) controller \<times> 'e)"
where
  "on_configure ops lifecycle_node previous_state c e =
     (case get_parameter lifecycle_node ''joints'' of
        None \<Rightarrow> Inr (CallbackReturn_ERROR, c, e)
      | Some joints_param \<Rightarrow>
     (case get_parameter lifecycle_node ''interface_name'' of
        None \<Rightarrow> Inr (CallbackReturn_ERROR, c, e)
      | Some interface_param \<Rightarrow>
     (case as_string_array joints_param of
        Inl x \<Rightarrow> Inl x
      | Inr joint_names \<Rightarrow>
     if joint_names = [] then Inr (CallbackReturn_ERROR, c, e)
     else
     (case as_string interface_param of
        Inl x \<Rightarrow> Inl x
      | Inr interface_name \<Rightarrow>
     if interface_name = [] then Inr (CallbackReturn_ERROR, c, e)
     else
       let c1 = c\<lparr>interfaces := interfaces c @ [interface_name]\<rparr> in
       if lock ops e then
         if \<not> check_loop ops joint_names (interfaces c1) e
         then Inr (CallbackReturn_ERROR, c1, e)
         else
           (case claim_loop ops joint_names (interfaces c1) (joint_handles c1) e of
              (completed, hs, e') \<Rightarrow>
                if \<not> completed
                then Inr (CallbackReturn_ERROR, c1\<lparr>joint_handles := hs\<rparr>, e')
                else Inr (CallbackReturn_SUCCESS,
                          c1\<lparr>joint_handles := hs,
                             joints_command_subscriber := Some ''commands''\<rparr>, e'))
       else Inr (CallbackReturn_ERROR, c1, e)))))"

subsection \<open>on\_activate, on\_deactivate\<close>

definition on_activate ::
  "State \<Rightarrow> ('h, 'd) controller \<Rightarrow> 'e \<Rightarrow> CallbackReturn \<times> ('h, 'd) controller \<times> 'e" where
  "on_activate previous_state c e = (CallbackReturn_SUCCESS, c, e)"

definition on_deactivate ::
  "State \<Rightarrow> ('h, 'd) controller \<Rightarrow> 'e \<Rightarrow> CallbackReturn \<times> ('h, 'd) controller \<times> 'e" where
  "on_deactivate previous_state c e = (CallbackReturn_SUCCESS, c, e)"

subsection \<open>update\<close>

text \<open>
  The forwarding loop, by index as in the source. It is entered only when
  \<open>joint_num\<close> is the length of both the message and the handle vector, so both
  subscripts are in range. The code returned by \<^verbatim>\<open>set_command\<close> is dropped. A handle
  stored by \<^verbatim>\<open>on_configure\<close> is taken to be a pointer that can be dereferenced.
\<close>

function update_loop ::
  "('h, 'd, 'e) collaborators \<Rightarrow> 'h list \<Rightarrow> string list \<Rightarrow> 'd list \<Rightarrow> nat \<Rightarrow> nat \<Rightarrow> 'e \<Rightarrow> 'e"
where
  "update_loop ops hs ifs joint_commands joint_num index e =
     (if index < joint_num then
        let data = [] @ [joint_commands ! index];
            e' = snd (set_command ops (hs ! index) data ifs e)
        in update_loop ops hs ifs joint_commands joint_num (Suc index) e'
      else e)"
  by pat_completeness auto
termination
  by (relation "measure (\<lambda>(ops, hs, ifs, joint_commands, joint_num, index, e). joint_num - index)")
     auto

declare update_loop.simps [simp del]

definition update ::
  "('h, 'd, 'e) collaborators \<Rightarrow> ('h, 'd) controller \<Rightarrow> 'e \<Rightarrow> return_type \<times> ('h, 'd) controller \<times> 'e"
where
  "update ops c e =
     (case rt_command_ptr c of
        None \<Rightarrow> (SUCCESS, c, e)
      | Some joint_commands \<Rightarrow>
          let joint_num = length joint_commands in
          if joint_num \<noteq> length (joint_handles c) then (ERROR, c, e)
          else (SUCCESS, c,
                update_loop ops (joint_handles c) (interfaces c) joint_commands joint_num 0 e))"

subsection \<open>Sequences of calls\<close>

text \<open>
  What the surrounding runtime does with a controller: it calls the transition
  callbacks and \<^verbatim>\<open>update\<close>, and publishes messages. A configure call comes with the
  node's parameters at that moment. An exception thrown by \<^verbatim>\<open>on_configure\<close> leaves
  the controller and the world as they were. A message reaches the callback through
  the subscription, which exists once \<^verbatim>\<open>on_configure\<close> has succeeded; before that it
  is lost.
\<close>

datatype 'd call = Configure LifecycleNode | Activate | Deactivate | Update | Message "'d list"

fun step ::
  "('h, 'd, 'e) collaborators \<Rightarrow> 'd call \<Rightarrow> ('h, 'd) controller \<times> 'e \<Rightarrow> ('h, 'd) controller \<times> 'e"
where
  "step ops (Configure node) (c, e) =
     (case on_configure ops node PRIMARY_STATE_UNCONFIGURED c e of
        Inl x \<Rightarrow> (c, e)
      | Inr (r, c', e') \<Rightarrow> (c', e'))"
| "step ops Activate (c, e) = snd (on_activate PRIMARY_STATE_INACTIVE c e)"
| "step ops Deactivate (c, e) = snd (on_deactivate PRIMARY_STATE_ACTIVE c e)"
| "step ops Update (c, e) = snd (update ops c e)"
| "step ops (Message msg) (c, e) =
     (case joints_command_subscriber c of
        None \<Rightarrow> (c, e)
      | Some topic \<Rightarrow> (commands_callback msg c, e))"

definition run ::
  "('h, 'd, 'e) collaborators \<Rightarrow> 'd call list \<Rightarrow> ('h, 'd) controller \<times> 'e \<Rightarrow> ('h, 'd) controller \<times> 'e"
where
  "run ops calls s = foldl (\<lambda>s x. step ops x s) s calls"

text \<open>
  The parameter checks of \<^verbatim>\<open>on_configure\<close> that precede the write to \<^verbatim>\<open>interfaces_\<close>:
  both parameters are set, have the type read from them, and are not empty.
\<close>

definition passes_parameter_checks :: "LifecycleNode \<Rightarrow> bool" where
  "passes_parameter_checks node =
     (case get_parameter node ''joints'' of
        Some (PARAMETER_STRING_ARRAY joint_names) \<Rightarrow>
          (case get_parameter node ''interface_name'' of
             Some (PARAMETER_STRING interface_name) \<Rightarrow> joint_names \<noteq> [] \<and> interface_name \<noteq> []
           | _ \<Rightarrow> False)
      | _ \<Rightarrow> False)"

fun counts_as_configure :: "'d call \<Rightarrow> bool" where
  "counts_as_configure (Configure node) = passes_parameter_checks node"
| "counts_as_configure _ = False"

subsection \<open>What the registry hands out\<close>

text \<open>
  The handles a registry returns when the joints of a list are claimed one after the
  other, each claim made in the world the previous one left, and the world after all
  of them. These say what ``the handle returned by the claim call for joint i'' is,
  independently of the loop of \<^verbatim>\<open>on_configure\<close>.
\<close>

fun world_after_claims :: "('h, 'd, 'e) collaborators \<Rightarrow> string list \<Rightarrow> string list \<Rightarrow> 'e \<Rightarrow> 'e" where
  "world_after_claims ops [] ifs e = e"
| "world_after_claims ops (n # ns) ifs e =
     world_after_claims ops ns ifs (snd (snd (claim_command_handle ops n ifs e)))"

definition claim_result ::
  "('h, 'd, 'e) collaborators \<Rightarrow> string list \<Rightarrow> string list \<Rightarrow> 'e \<Rightarrow> nat \<Rightarrow> hardware_return_type \<times> 'h"
where
  "claim_result ops names ifs e i =
     (case claim_command_handle ops (names ! i) ifs (world_after_claims ops (take i names) ifs e) of
        (rc, h, e') \<Rightarrow> (rc, h))"

subsection \<open>A small registry for the examples\<close>

text \<open>
  A world that records the accepted claims and every \<^verbatim>\<open>set_command\<close> call, and a
  registry over it with three joints, each offering a position and a velocity
  interface. A joint can be claimed once; a handle is the joint's name. A write is
  accepted when it brings one value for each interface named.
\<close>

record demo_world =
  claims :: "(string \<times> string list) list"
  writes :: "(string \<times> real list \<times> string list) list"

definition demo_world0 :: demo_world where
  "demo_world0 = \<lparr>claims = [], writes = []\<rparr>"

definition demo_registered :: "string \<Rightarrow> string list \<Rightarrow> bool" where
  "demo_registered n ifs =
     (n \<in> set [''j1'', ''j2'', ''j3''] \<and> set ifs \<subseteq> set [''position'', ''velocity''])"

definition demo :: "(string, real, demo_world) collaborators" where
  "demo =
     \<lparr>lock = (\<lambda>e. True),
      check_command_interfaces = (\<lambda>n ifs e. if demo_registered n ifs then OK else NOT_OK),
      claim_command_handle = (\<lambda>n ifs e.
         if demo_registered n ifs \<and> n \<notin> set (map fst (claims e))
         then (OK, n, e\<lparr>claims := claims e @ [(n, ifs)]\<rparr>)
         else (NOT_OK, [], e)),
      set_command = (\<lambda>h d ifs e.
         (if length d = length ifs then OK else NOT_OK, e\<lparr>writes := writes e @ [(h, d, ifs)]\<rparr>))\<rparr>"

text \<open>The same registry with joints whose every write reports a failure.\<close>

definition demo_failing :: "(string, real, demo_world) collaborators" where
  "demo_failing =
     demo\<lparr>set_command := (\<lambda>h d ifs e. (NOT_OK, snd (set_command demo h d ifs e)))\<rparr>"

definition demo_node :: "string list \<Rightarrow> string \<Rightarrow> LifecycleNode" where
  "demo_node joint_names interface_name =
     \<lparr>get_parameter = [''joints'' \<mapsto> PARAMETER_STRING_ARRAY joint_names,
                       ''interface_name'' \<mapsto> PARAMETER_STRING interface_name]\<rparr>"

text \<open>
  The controller and the world after a first configure call for the three joints with
  the velocity interface.
\<close>

definition demo_controller :: "(string, real) controller" where
  "demo_controller =
     \<lparr>joint_handles = [''j1'', ''j2'', ''j3''], interfaces = [''velocity''],
      rt_command_ptr = None, joints_command_subscriber = Some ''commands''\<rparr>"

definition demo_world3 :: demo_world where
  "demo_world3 =
     \<lparr>claims = [(''j1'', [''velocity'']), (''j2'', [''velocity'']), (''j3'', [''velocity''])],
      writes = []\<rparr>"

section \<open>Properties\<close>

subsection \<open>The loops of on\_configure\<close>

lemma check_loop_iff:
  "check_loop ops names ifs e \<longleftrightarrow> (\<forall>n\<in>set names. check_command_interfaces ops n ifs e = OK)"
  by (induction names) auto

lemma claim_result_Cons_0:
  "claim_result ops (n # ns) ifs e 0 =
     (fst (claim_command_handle ops n ifs e), fst (snd (claim_command_handle ops n ifs e)))"
  by (simp add: claim_result_def split: prod.splits)

lemma claim_result_Cons_Suc:
  "claim_result ops (n # ns) ifs e (Suc i) =
     claim_result ops ns ifs (snd (snd (claim_command_handle ops n ifs e))) i"
  by (simp add: claim_result_def)

lemma all_less_Suc_length:
  "(\<forall>i<Suc k. P i) \<longleftrightarrow> P 0 \<and> (\<forall>i<k. P (Suc i))"
  by (metis less_Suc_eq_0_disj Suc_less_eq zero_less_Suc)

lemma claim_loop_completes_iff:
  "fst (claim_loop ops names ifs hs e) \<longleftrightarrow>
     (\<forall>i<length names. fst (claim_result ops names ifs e i) = OK)"
proof (induction names arbitrary: hs e)
  case Nil
  show ?case by simp
next
  case (Cons n ns)
  obtain rc h e1 where cl: "claim_command_handle ops n ifs e = (rc, h, e1)"
    by (cases "claim_command_handle ops n ifs e") auto
  show ?case
  proof (cases "rc = OK")
    case True
    then show ?thesis
      using Cons.IH [of "hs @ [h]" e1] cl
      by (simp add: all_less_Suc_length claim_result_Cons_0 claim_result_Cons_Suc)
  next
    case False
    then have "fst (claim_result ops (n # ns) ifs e 0) \<noteq> OK"
      using cl by (simp add: claim_result_Cons_0)
    then show ?thesis using False cl by auto
  qed
qed

lemma claim_loop_stopped:
  "\<not> fst (claim_loop ops names ifs hs e) \<Longrightarrow> fst (snd (claim_loop ops names ifs hs e)) = []"
proof (induction names arbitrary: hs e)
  case Nil
  then show ?case by simp
next
  case (Cons n ns)
  then show ?case
    by (cases "claim_command_handle ops n ifs e") (auto split: if_splits)
qed

lemma claim_loop_completed:
  "fst (claim_loop ops names ifs hs e) \<Longrightarrow>
     fst (snd (claim_loop ops names ifs hs e)) =
       hs @ map (\<lambda>i. snd (claim_result ops names ifs e i)) [0..<length names]
     \<and> snd (snd (claim_loop ops names ifs hs e)) = world_after_claims ops names ifs e"
proof (induction names arbitrary: hs e)
  case Nil
  then show ?case by simp
next
  case (Cons n ns)
  obtain rc h e1 where cl: "claim_command_handle ops n ifs e = (rc, h, e1)"
    by (cases "claim_command_handle ops n ifs e") auto
  from Cons.prems cl have ok: "rc = OK"
    by (auto split: if_splits)
  with Cons.prems cl have "fst (claim_loop ops ns ifs (hs @ [h]) e1)"
    by simp
  from Cons.IH [OF this] ok cl show ?case
    by (simp add: upt_conv_Cons map_Suc_upt [symmetric] claim_result_Cons_0
        claim_result_Cons_Suc del: upt_Suc)
qed

lemma check_loop_agree:
  "\<forall>n. check_command_interfaces ops' n ifs e = check_command_interfaces ops n ifs e \<Longrightarrow>
     check_loop ops' names ifs e = check_loop ops names ifs e"
  by (induction names) simp_all

lemma claim_loop_agree:
  "\<forall>n w. claim_command_handle ops' n ifs w = claim_command_handle ops n ifs w \<Longrightarrow>
     claim_loop ops' names ifs hs e = claim_loop ops names ifs hs e"
  by (induction names arbitrary: hs e) (simp_all split: prod.splits)

subsection \<open>on\_configure by cases\<close>

text \<open>
  Once both parameters are set, well typed and not empty, the interface name is
  appended and the outcome depends on the lock and the two loops only.
\<close>

lemma on_configure_checked:
  assumes "get_parameter node ''joints'' = Some (PARAMETER_STRING_ARRAY names)"
    and "names \<noteq> []"
    and "get_parameter node ''interface_name'' = Some (PARAMETER_STRING iface)"
    and "iface \<noteq> []"
  shows "on_configure ops node prev c e =
     (let c1 = c\<lparr>interfaces := interfaces c @ [iface]\<rparr>; ifs = interfaces c @ [iface] in
      if \<not> lock ops e \<or> \<not> check_loop ops names ifs e then Inr (CallbackReturn_ERROR, c1, e)
      else if \<not> fst (claim_loop ops names ifs (joint_handles c) e)
      then Inr (CallbackReturn_ERROR,
                c1\<lparr>joint_handles := fst (snd (claim_loop ops names ifs (joint_handles c) e))\<rparr>,
                snd (snd (claim_loop ops names ifs (joint_handles c) e)))
      else Inr (CallbackReturn_SUCCESS,
                c1\<lparr>joint_handles := fst (snd (claim_loop ops names ifs (joint_handles c) e)),
                   joints_command_subscriber := Some ''commands''\<rparr>,
                snd (snd (claim_loop ops names ifs (joint_handles c) e))))"
  using assms by (simp add: on_configure_def Let_def split: prod.splits)

lemma on_configure_success_params:
  assumes "on_configure ops node prev c e = Inr (CallbackReturn_SUCCESS, c', e')"
  shows "\<exists>names iface. get_parameter node ''joints'' = Some (PARAMETER_STRING_ARRAY names)
           \<and> names \<noteq> []
           \<and> get_parameter node ''interface_name'' = Some (PARAMETER_STRING iface)
           \<and> iface \<noteq> []"
proof -
  from assms obtain jp ip where j: "get_parameter node ''joints'' = Some jp"
    and i: "get_parameter node ''interface_name'' = Some ip"
    by (auto simp: on_configure_def split: option.splits)
  from assms j i obtain names where n: "jp = PARAMETER_STRING_ARRAY names"
    by (cases jp) (auto simp: on_configure_def)
  from assms j i n have ne: "names \<noteq> []"
    by (auto simp: on_configure_def split: if_splits)
  from assms j i n ne obtain iface where f: "ip = PARAMETER_STRING iface"
    by (cases ip) (auto simp: on_configure_def)
  from assms j i n ne f have "iface \<noteq> []"
    by (auto simp: on_configure_def split: if_splits)
  with j i n ne f show ?thesis by simp
qed

lemma on_configure_unchecked:
  assumes "\<not> passes_parameter_checks node"
  shows "on_configure ops node prev c e = Inl ParameterTypeException
       \<or> on_configure ops node prev c e = Inr (CallbackReturn_ERROR, c, e)"
proof (cases "get_parameter node ''joints''")
  case None
  then show ?thesis by (simp add: on_configure_def)
next
  case (Some jp)
  note j = this
  show ?thesis
  proof (cases "get_parameter node ''interface_name''")
    case None
    then show ?thesis using j by (simp add: on_configure_def)
  next
    case (Some ip)
    show ?thesis
      using assms j Some
      by (cases jp; cases ip) (auto simp: on_configure_def passes_parameter_checks_def)
  qed
qed

lemma passes_parameter_checksD:
  assumes "passes_parameter_checks node"
  obtains names iface where
    "get_parameter node ''joints'' = Some (PARAMETER_STRING_ARRAY names)" "names \<noteq> []"
    "get_parameter node ''interface_name'' = Some (PARAMETER_STRING iface)" "iface \<noteq> []"
proof -
  from assms obtain jp where j: "get_parameter node ''joints'' = Some jp"
    by (cases "get_parameter node ''joints''") (simp_all add: passes_parameter_checks_def)
  from assms j obtain names where n: "jp = PARAMETER_STRING_ARRAY names"
    by (cases jp) (simp_all add: passes_parameter_checks_def)
  from assms j n obtain ip where i: "get_parameter node ''interface_name'' = Some ip"
    by (cases "get_parameter node ''interface_name''") (simp_all add: passes_parameter_checks_def)
  from assms j n i obtain iface where f: "ip = PARAMETER_STRING iface"
    by (cases ip) (simp_all add: passes_parameter_checks_def)
  from assms j n i f have "names \<noteq> []" "iface \<noteq> []"
    by (simp_all add: passes_parameter_checks_def)
  with j n i f that show thesis by simp
qed

lemma on_configure_appends:
  assumes "get_parameter node ''joints'' = Some (PARAMETER_STRING_ARRAY names)"
    and "names \<noteq> []"
    and "get_parameter node ''interface_name'' = Some (PARAMETER_STRING iface)"
    and "iface \<noteq> []"
  shows "\<exists>r c' e'. on_configure ops node prev c e = Inr (r, c', e')
           \<and> interfaces c' = interfaces c @ [iface]
           \<and> rt_command_ptr c' = rt_command_ptr c"
  by (simp add: on_configure_checked [OF assms] Let_def)

lemma on_configure_agree:
  assumes "get_parameter node ''joints'' = Some (PARAMETER_STRING_ARRAY names)"
    and "names \<noteq> []"
    and "get_parameter node ''interface_name'' = Some (PARAMETER_STRING iface)"
    and "iface \<noteq> []"
    and "lock ops' e = lock ops e"
    and "\<forall>n. check_command_interfaces ops' n (interfaces c @ [iface]) e =
              check_command_interfaces ops n (interfaces c @ [iface]) e"
    and "\<forall>n w. claim_command_handle ops' n (interfaces c @ [iface]) w =
                claim_command_handle ops n (interfaces c @ [iface]) w"
  shows "on_configure ops' node prev c e = on_configure ops node prev c e"
  using assms(5) check_loop_agree [OF assms(6), of names] claim_loop_agree [OF assms(7), of names]
  by (simp add: on_configure_checked [OF assms(1-4)] Let_def)

subsection \<open>on\_configure and the handle vector\<close>

text \<open>
  A run that reaches the resource manager and meets a joint that fails the
  availability check or the claim returns ERROR. After a failed availability check
  the handle vector is the one the run was entered with; after a failed claim it is
  empty.
\<close>

lemma on_configure_error_handles:
  assumes "get_parameter node ''joints'' = Some (PARAMETER_STRING_ARRAY names)"
    and "get_parameter node ''interface_name'' = Some (PARAMETER_STRING iface)"
    and "iface \<noteq> []"
    and "lock ops e"
    and "(\<exists>n\<in>set names. check_command_interfaces ops n (interfaces c @ [iface]) e \<noteq> OK)
         \<or> (\<exists>i<length names. fst (claim_result ops names (interfaces c @ [iface]) e i) \<noteq> OK)"
  shows "\<exists>c' e'. on_configure ops node prev c e = Inr (CallbackReturn_ERROR, c', e')
           \<and> joint_handles c' =
               (if check_loop ops names (interfaces c @ [iface]) e then [] else joint_handles c)"
proof -
  from assms(5) have ne: "names \<noteq> []" by auto
  let ?ifs = "interfaces c @ [iface]"
  show ?thesis
  proof (cases "check_loop ops names ?ifs e")
    case False
    then show ?thesis
      using assms(1-4) ne by (simp add: on_configure_checked)
  next
    case True
    with assms(5) have "\<not> fst (claim_loop ops names ?ifs (joint_handles c) e)"
      by (auto simp: check_loop_iff claim_loop_completes_iff)
    then show ?thesis
      using assms(1-4) ne True by (simp add: on_configure_checked claim_loop_stopped)
  qed
qed

text \<open>
  A run that returns SUCCESS has appended to the handle vector the handles the
  registry returned for the joint names, in their order; entered with an empty
  vector, it leaves one handle for each joint name, at the index of the name.
\<close>

lemma on_configure_success_index_aligned:
  assumes "joint_handles c = []"
    and "on_configure ops node prev c e = Inr (CallbackReturn_SUCCESS, c', e')"
  shows "\<exists>names iface.
           get_parameter node ''joints'' = Some (PARAMETER_STRING_ARRAY names)
         \<and> get_parameter node ''interface_name'' = Some (PARAMETER_STRING iface)
         \<and> interfaces c' = interfaces c @ [iface]
         \<and> length (joint_handles c') = length names
         \<and> (\<forall>i<length names.
              claim_result ops names (interfaces c') e i = (OK, joint_handles c' ! i))"
proof -
  from on_configure_success_params [OF assms(2)] obtain names iface
    where p: "get_parameter node ''joints'' = Some (PARAMETER_STRING_ARRAY names)"
      "names \<noteq> []"
      "get_parameter node ''interface_name'' = Some (PARAMETER_STRING iface)"
      "iface \<noteq> []"
    by blast
  let ?ifs = "interfaces c @ [iface]"
  from assms(2) have fin: "fst (claim_loop ops names ?ifs (joint_handles c) e)"
    and c': "c' = c\<lparr>interfaces := ?ifs,
                    joint_handles := fst (snd (claim_loop ops names ?ifs (joint_handles c) e)),
                    joints_command_subscriber := Some ''commands''\<rparr>"
    by (auto simp: on_configure_checked [OF p] Let_def split: if_splits)
  from claim_loop_completed [OF fin] assms(1) c'
  have hs: "joint_handles c' = map (\<lambda>i. snd (claim_result ops names ?ifs e i)) [0..<length names]"
    by simp
  from c' have ifs: "interfaces c' = ?ifs" by simp
  from fin have ok: "\<forall>i<length names. fst (claim_result ops names ?ifs e i) = OK"
    by (simp add: claim_loop_completes_iff)
  have "\<forall>i<length names. claim_result ops names (interfaces c') e i = (OK, joint_handles c' ! i)"
    using ok by (simp add: hs ifs prod_eq_iff)
  with p ifs hs show ?thesis by simp
qed

subsection \<open>The loop of update\<close>

text \<open>
  From index \<open>index\<close> on, the loop writes the remaining pairs of handle and value in
  order.
\<close>

lemma update_loop_drop:
  "index \<le> joint_num \<Longrightarrow> joint_num = length joint_commands \<Longrightarrow> joint_num = length hs \<Longrightarrow>
   update_loop ops hs ifs joint_commands joint_num index e =
     foldl (\<lambda>e (h, x). snd (set_command ops h [x] ifs e)) e (drop index (zip hs joint_commands))"
proof (induction ops hs ifs joint_commands joint_num index e rule: update_loop.induct)
  case (1 ops hs ifs joint_commands joint_num index e)
  show ?case
  proof (cases "index < joint_num")
    case True
    have len: "index < length (zip hs joint_commands)"
      using True "1.prems" by simp
    have d: "drop index (zip hs joint_commands) =
               (hs ! index, joint_commands ! index) # drop (Suc index) (zip hs joint_commands)"
      using Cons_nth_drop_Suc [OF len] len by simp
    have "update_loop ops hs ifs joint_commands joint_num index e =
            update_loop ops hs ifs joint_commands joint_num (Suc index)
              (snd (set_command ops (hs ! index) [joint_commands ! index] ifs e))"
      using True by (subst update_loop.simps) (simp add: Let_def)
    also have "\<dots> = foldl (\<lambda>e (h, x). snd (set_command ops h [x] ifs e))
                       (snd (set_command ops (hs ! index) [joint_commands ! index] ifs e))
                       (drop (Suc index) (zip hs joint_commands))"
      using "1.IH" [OF True refl refl] True "1.prems" by simp
    finally show ?thesis by (simp add: d)
  next
    case False
    then show ?thesis using "1.prems" by (subst update_loop.simps) simp
  qed
qed

lemma update_agree:
  assumes "\<forall>h d w. snd (set_command ops' h d (interfaces c) w) = snd (set_command ops h d (interfaces c) w)"
  shows "update ops' c e = update ops c e"
proof (cases "rt_command_ptr c")
  case None
  then show ?thesis by (simp add: update_def)
next
  case (Some joint_commands)
  show ?thesis
  proof (cases "length joint_commands = length (joint_handles c)")
    case True
    then show ?thesis
      using Some assms by (simp add: update_def update_loop_drop)
  next
    case False
    then show ?thesis using Some by (simp add: update_def)
  qed
qed

subsection \<open>Sequences of calls\<close>

lemma step_interfaces:
  "\<exists>ys. interfaces (fst (step ops x (c, e))) = interfaces c @ ys
      \<and> length ys = (if counts_as_configure x then 1 else 0)"
proof (cases x)
  case (Configure node)
  show ?thesis
  proof (cases "passes_parameter_checks node")
    case True
    then obtain names iface where p:
      "get_parameter node ''joints'' = Some (PARAMETER_STRING_ARRAY names)" "names \<noteq> []"
      "get_parameter node ''interface_name'' = Some (PARAMETER_STRING iface)" "iface \<noteq> []"
      by (rule passes_parameter_checksD)
    from on_configure_appends [OF p, of ops PRIMARY_STATE_UNCONFIGURED c e]
    show ?thesis using Configure True by auto
  next
    case False
    from on_configure_unchecked [OF this, of ops PRIMARY_STATE_UNCONFIGURED c e]
    show ?thesis using Configure False by auto
  qed
next
  case Activate
  then show ?thesis by (simp add: on_activate_def)
next
  case Deactivate
  then show ?thesis by (simp add: on_deactivate_def)
next
  case Update
  then show ?thesis by (simp add: update_def Let_def split: option.splits)
next
  case (Message msg)
  then show ?thesis by (simp add: commands_callback_def split: option.splits)
qed

lemma step_keeps_interfaces:
  "take (length (interfaces (fst s))) (interfaces (fst (step ops x s))) = interfaces (fst s)"
proof -
  obtain c e where s: "s = (c, e)" by (cases s)
  from step_interfaces [of ops x c e] obtain ys
    where "interfaces (fst (step ops x (c, e))) = interfaces c @ ys" by blast
  then show ?thesis by (simp add: s)
qed

lemma run_interfaces_length:
  "length (interfaces (fst (run ops calls s))) =
     length (interfaces (fst s)) + length (filter counts_as_configure calls)"
proof (induction calls arbitrary: s)
  case Nil
  show ?case by (simp add: run_def)
next
  case (Cons x xs)
  obtain c e where s: "s = (c, e)" by (cases s)
  from step_interfaces [of ops x c e] obtain ys
    where ys: "interfaces (fst (step ops x (c, e))) = interfaces c @ ys"
      "length ys = (if counts_as_configure x then 1 else 0)" by blast
  have "run ops (x # xs) s = run ops xs (step ops x s)"
    by (simp add: run_def)
  then show ?case
    using Cons.IH [of "step ops x s"] ys by (simp add: s)
qed

lemma step_mailbox:
  "\<forall>msg. x \<noteq> Message msg \<Longrightarrow> rt_command_ptr (fst (step ops x (c, e))) = rt_command_ptr c"
proof (cases x)
  case (Configure node)
  show ?thesis
  proof (cases "passes_parameter_checks node")
    case True
    then obtain names iface where p:
      "get_parameter node ''joints'' = Some (PARAMETER_STRING_ARRAY names)" "names \<noteq> []"
      "get_parameter node ''interface_name'' = Some (PARAMETER_STRING iface)" "iface \<noteq> []"
      by (rule passes_parameter_checksD)
    from on_configure_appends [OF p, of ops PRIMARY_STATE_UNCONFIGURED c e]
    show ?thesis using Configure by auto
  next
    case False
    from on_configure_unchecked [OF this, of ops PRIMARY_STATE_UNCONFIGURED c e]
    show ?thesis using Configure by auto
  qed
next
  case Activate
  then show ?thesis by (simp add: on_activate_def)
next
  case Deactivate
  then show ?thesis by (simp add: on_deactivate_def)
next
  case Update
  then show ?thesis by (simp add: update_def Let_def split: option.splits)
next
  case (Message msg)
  assume "\<forall>msg. x \<noteq> Message msg"
  with Message show ?thesis by simp
qed

lemma run_mailbox:
  "\<forall>x\<in>set calls. \<forall>msg. x \<noteq> Message msg \<Longrightarrow>
     rt_command_ptr (fst (run ops calls s)) = rt_command_ptr (fst s)"
proof (induction calls arbitrary: s)
  case Nil
  show ?case by (simp add: run_def)
next
  case (Cons x xs)
  obtain c e where s: "s = (c, e)" by (cases s)
  have r: "run ops (x # xs) (c, e) = run ops xs (step ops x (c, e))"
    by (simp add: run_def)
  from Cons.prems have "\<forall>msg. x \<noteq> Message msg" by simp
  from step_mailbox [OF this, of ops c e] Cons.IH [of "step ops x (c, e)"] Cons.prems
  show ?case by (simp add: r s)
qed

subsection \<open>The example registry\<close>

lemmas demo_eval = on_configure_def demo_def demo_node_def demo_registered_def demo_world0_def
  ForwardCommandControllerNewComponents_def demo_failing_def demo_controller_def demo_world3_def
  update_def update_loop.simps commands_callback_def

lemma demo_controller_configured:
  "on_configure demo (demo_node [''j1'', ''j2'', ''j3''] ''velocity'') PRIMARY_STATE_UNCONFIGURED
     ForwardCommandControllerNewComponents demo_world0 =
     Inr (CallbackReturn_SUCCESS, demo_controller, demo_world3)"
  by (simp add: demo_eval)

section \<open>The claims\<close>

subsection \<open>C1: a failed configure and the handles\<close>

text \<open>
  Claim C1 says that every \<^verbatim>\<open>on_configure\<close> run in which a joint fails the
  availability check or the claim returns ERROR and leaves \<^verbatim>\<open>joint_handles_\<close> empty.
  The code returns ERROR, but the return at a failed availability check leaves
  \<^verbatim>\<open>joint_handles_\<close> as it was, where the return at a failed claim clears it. First
  conjunct: a configure for \<open>j1\<close> succeeds on a new controller. Second: \<open>j9\<close> is not
  available. Third: a second configure, for \<open>j2\<close> and \<open>j9\<close>, returns ERROR and the
  handle of \<open>j1\<close> is still held.
\<close>

theorem on_configure_failed_check_keeps_earlier_handles:
  "on_configure demo (demo_node [''j1''] ''velocity'') PRIMARY_STATE_UNCONFIGURED
     ForwardCommandControllerNewComponents demo_world0 =
     Inr (CallbackReturn_SUCCESS,
          \<lparr>joint_handles = [''j1''], interfaces = [''velocity''], rt_command_ptr = None,
           joints_command_subscriber = Some ''commands''\<rparr>,
          \<lparr>claims = [(''j1'', [''velocity''])], writes = []\<rparr>)
   \<and> check_command_interfaces demo ''j9'' [''velocity'', ''velocity'']
        \<lparr>claims = [(''j1'', [''velocity''])], writes = []\<rparr> \<noteq> OK
   \<and> on_configure demo (demo_node [''j2'', ''j9''] ''velocity'') PRIMARY_STATE_UNCONFIGURED
        \<lparr>joint_handles = [''j1''], interfaces = [''velocity''], rt_command_ptr = None,
         joints_command_subscriber = Some ''commands''\<rparr>
        \<lparr>claims = [(''j1'', [''velocity''])], writes = []\<rparr> =
     Inr (CallbackReturn_ERROR,
          \<lparr>joint_handles = [''j1''], interfaces = [''velocity'', ''velocity''],
           rt_command_ptr = None, joints_command_subscriber = Some ''commands''\<rparr>,
          \<lparr>claims = [(''j1'', [''velocity''])], writes = []\<rparr>)"
  by (simp add: demo_eval)

subsection \<open>C2: forwarding in index order\<close>

text \<open>
  Claim C2. When the mailbox holds a message as long as the handle vector, \<^verbatim>\<open>update\<close>
  returns SUCCESS, changes no member, and the world is the one reached by calling
  \<^verbatim>\<open>set_command\<close> on handle \<open>i\<close> with the one-element sequence of value \<open>i\<close> and the
  interface vector, for \<open>i\<close> from the first index to the last, each call made in the
  world the previous one left.
\<close>

theorem update_forwards_in_index_order:
  assumes "rt_command_ptr c = Some joint_commands"
    and "length joint_commands = length (joint_handles c)"
  shows "update ops c e =
           (SUCCESS, c,
            foldl (\<lambda>e (h, x). snd (set_command ops h [x] (interfaces c) e)) e
              (zip (joint_handles c) joint_commands))"
  using assms update_loop_drop [of 0 "length joint_commands" joint_commands "joint_handles c" ops "interfaces c" e]
  by (simp add: update_def)

text \<open>
  The instance of the claim: joints \<open>j1\<close>, \<open>j2\<close>, \<open>j3\<close>, interface \<open>velocity\<close>, message
  \<open>[1.0, 2.0, 3.0]\<close>; the world records the three calls in that order.
\<close>

theorem update_forwards_in_index_order_witness:
  "on_configure demo (demo_node [''j1'', ''j2'', ''j3''] ''velocity'') PRIMARY_STATE_UNCONFIGURED
     ForwardCommandControllerNewComponents demo_world0 =
     Inr (CallbackReturn_SUCCESS, demo_controller, demo_world3)
   \<and> rt_command_ptr (commands_callback [1, 2, 3] demo_controller) = Some [1, 2, 3]
   \<and> length [1, 2, 3 :: real] = length (joint_handles (commands_callback [1, 2, 3] demo_controller))
   \<and> update demo (commands_callback [1, 2, 3] demo_controller) demo_world3 =
       (SUCCESS, commands_callback [1, 2, 3] demo_controller,
        demo_world3\<lparr>writes := [(''j1'', [1], [''velocity'']), (''j2'', [2], [''velocity'']),
                                (''j3'', [3], [''velocity''])]\<rparr>)"
proof -
  let ?c = "commands_callback [1, 2, 3] demo_controller :: (string, real) controller"
  have h1: "rt_command_ptr ?c = Some [1, 2, 3]"
    by (simp add: commands_callback_def)
  have h2: "length [1, 2, 3 :: real] = length (joint_handles ?c)"
    by (simp add: commands_callback_def demo_controller_def)
  from update_forwards_in_index_order [OF h1 h2, of demo demo_world3]
  have u: "update demo ?c demo_world3 =
       (SUCCESS, ?c,
        demo_world3\<lparr>writes := [(''j1'', [1], [''velocity'']), (''j2'', [2], [''velocity'']),
                                (''j3'', [3], [''velocity''])]\<rparr>)"
    by (simp add: commands_callback_def demo_controller_def demo_def demo_world3_def)
  show ?thesis by (intro conjI demo_controller_configured h1 h2 u)
qed

subsection \<open>C3: a message of the wrong length\<close>

text \<open>
  Claim C3. When the mailbox holds a message whose length differs from the number of
  handles, \<^verbatim>\<open>update\<close> returns ERROR, makes no \<^verbatim>\<open>set_command\<close> call (the world is as
  before) and changes no member; the controller goes on: once a message of the right
  length has arrived, the next cycle, run on what the failed cycle left, returns
  SUCCESS.
\<close>

theorem update_size_mismatch:
  assumes "rt_command_ptr c = Some joint_commands"
    and "length joint_commands \<noteq> length (joint_handles c)"
  shows "update ops c e = (ERROR, c, e)
       \<and> (length msg = length (joint_handles c) \<longrightarrow>
            fst (update ops (commands_callback msg (fst (snd (update ops c e))))
                   (snd (snd (update ops c e)))) = SUCCESS)"
  using assms by (simp add: update_def commands_callback_def)

text \<open>
  An instance: three handles, a message of two values, then a message of three.
\<close>

theorem update_size_mismatch_witness:
  "rt_command_ptr (commands_callback [1, 2] demo_controller) = Some [1, 2]
   \<and> length [1, 2 :: real] \<noteq> length (joint_handles (commands_callback [1, 2] demo_controller))
   \<and> update demo (commands_callback [1, 2] demo_controller) demo_world3 =
       (ERROR, commands_callback [1, 2] demo_controller, demo_world3)
   \<and> length [1, 2, 3 :: real] = length (joint_handles (commands_callback [1, 2] demo_controller))
   \<and> fst (update demo
            (commands_callback [1, 2, 3]
               (fst (snd (update demo (commands_callback [1, 2] demo_controller) demo_world3))))
            (snd (snd (update demo (commands_callback [1, 2] demo_controller) demo_world3)))) =
       SUCCESS"
proof -
  let ?c = "commands_callback [1, 2] demo_controller :: (string, real) controller"
  have h1: "rt_command_ptr ?c = Some [1, 2]"
    by (simp add: commands_callback_def)
  have h2: "length [1, 2 :: real] \<noteq> length (joint_handles ?c)"
    by (simp add: commands_callback_def demo_controller_def)
  have h3: "length [1, 2, 3 :: real] = length (joint_handles ?c)"
    by (simp add: commands_callback_def demo_controller_def)
  note t = update_size_mismatch [OF h1 h2, of demo demo_world3 "[1, 2, 3]"]
  from t [THEN conjunct2] h3
  have b: "fst (update demo
            (commands_callback [1, 2, 3] (fst (snd (update demo ?c demo_world3))))
            (snd (snd (update demo ?c demo_world3)))) = SUCCESS"
    by (rule mp)
  show ?thesis by (intro conjI h1 h2 t [THEN conjunct1] h3 b)
qed

subsection \<open>C4: no command yet\<close>

text \<open>
  Claim C4. A cycle run while the mailbox is still empty returns SUCCESS, makes no
  \<^verbatim>\<open>set_command\<close> call and changes no member; and the mailbox of a new controller stays
  empty through every sequence of calls in which no message is delivered.
\<close>

theorem update_without_command:
  "(rt_command_ptr c = None \<longrightarrow> update ops c e = (SUCCESS, c, e))
   \<and> ((\<forall>x\<in>set calls. \<forall>msg. x \<noteq> Message msg) \<longrightarrow>
        rt_command_ptr (fst (run ops calls (ForwardCommandControllerNewComponents, e0))) = None)"
proof -
  have "(\<forall>x\<in>set calls. \<forall>msg. x \<noteq> Message msg) \<longrightarrow>
        rt_command_ptr (fst (run ops calls (ForwardCommandControllerNewComponents, e0))) = None"
    using run_mailbox [of calls ops "(ForwardCommandControllerNewComponents, e0)"]
    by (simp add: ForwardCommandControllerNewComponents_def)
  then show ?thesis by (simp add: update_def)
qed

text \<open>
  An instance: the configured example controller, and a new controller that is
  configured, activated and updated with no message delivered.
\<close>

theorem update_without_command_witness:
  "rt_command_ptr demo_controller = None
   \<and> update demo demo_controller demo_world3 = (SUCCESS, demo_controller, demo_world3)
   \<and> rt_command_ptr (fst (run demo
         [Configure (demo_node [''j1'', ''j2'', ''j3''] ''velocity''), Activate, Update]
         (ForwardCommandControllerNewComponents, demo_world0))) = None"
proof -
  let ?calls = "[Configure (demo_node [''j1'', ''j2'', ''j3''] ''velocity''), Activate,
    Update :: real call]"
  have h1: "rt_command_ptr demo_controller = None"
    by (simp add: demo_controller_def)
  have h2: "\<forall>x\<in>set ?calls. \<forall>msg. x \<noteq> Message msg"
    by simp
  note t = update_without_command [of demo_controller demo demo_world3 ?calls demo_world0]
  from t [THEN conjunct1] h1
  have a: "update demo demo_controller demo_world3 = (SUCCESS, demo_controller, demo_world3)"
    by (rule mp)
  from t [THEN conjunct2] h2
  have b: "rt_command_ptr (fst (run demo ?calls (ForwardCommandControllerNewComponents, demo_world0)))
             = None"
    by (rule mp)
  show ?thesis by (intro conjI h1 a b)
qed

subsection \<open>C5: configuring again after a failure\<close>

text \<open>
  Claim C5 says that a configure call after a failed one leaves the controller as a
  first successful configure would. The code does otherwise: the interface name
  appended by the failed call stays in \<^verbatim>\<open>interfaces_\<close>. First conjunct: on a new
  controller a configure for \<open>j1\<close> and the unregistered \<open>j9\<close> returns ERROR and leaves
  \<open>velocity\<close> in \<^verbatim>\<open>interfaces_\<close>. Second: the following configure for \<open>j1\<close> alone
  succeeds, claims \<open>j1\<close> with the list \<open>velocity, velocity\<close> and keeps that list. Third: the
  same call on a new controller claims with \<open>velocity\<close> alone. Fourth: forwarding after
  the second call hands \<^verbatim>\<open>set_command\<close> one value and two interface names.
\<close>

theorem reconfigure_after_failure_keeps_interface:
  "on_configure demo (demo_node [''j1'', ''j9''] ''velocity'') PRIMARY_STATE_UNCONFIGURED
     ForwardCommandControllerNewComponents demo_world0 =
     Inr (CallbackReturn_ERROR,
          \<lparr>joint_handles = [], interfaces = [''velocity''], rt_command_ptr = None,
           joints_command_subscriber = None\<rparr>, demo_world0)
   \<and> on_configure demo (demo_node [''j1''] ''velocity'') PRIMARY_STATE_UNCONFIGURED
        \<lparr>joint_handles = [], interfaces = [''velocity''], rt_command_ptr = None,
         joints_command_subscriber = None\<rparr> demo_world0 =
     Inr (CallbackReturn_SUCCESS,
          \<lparr>joint_handles = [''j1''], interfaces = [''velocity'', ''velocity''],
           rt_command_ptr = None, joints_command_subscriber = Some ''commands''\<rparr>,
          \<lparr>claims = [(''j1'', [''velocity'', ''velocity''])], writes = []\<rparr>)
   \<and> on_configure demo (demo_node [''j1''] ''velocity'') PRIMARY_STATE_UNCONFIGURED
        ForwardCommandControllerNewComponents demo_world0 =
     Inr (CallbackReturn_SUCCESS,
          \<lparr>joint_handles = [''j1''], interfaces = [''velocity''],
           rt_command_ptr = None, joints_command_subscriber = Some ''commands''\<rparr>,
          \<lparr>claims = [(''j1'', [''velocity''])], writes = []\<rparr>)
   \<and> update demo
        \<lparr>joint_handles = [''j1''], interfaces = [''velocity'', ''velocity''],
         rt_command_ptr = Some [1], joints_command_subscriber = Some ''commands''\<rparr>
        \<lparr>claims = [(''j1'', [''velocity'', ''velocity''])], writes = []\<rparr> =
       (SUCCESS,
        \<lparr>joint_handles = [''j1''], interfaces = [''velocity'', ''velocity''],
         rt_command_ptr = Some [1], joints_command_subscriber = Some ''commands''\<rparr>,
        \<lparr>claims = [(''j1'', [''velocity'', ''velocity''])],
         writes = [(''j1'', [1], [''velocity'', ''velocity''])]\<rparr>)"
  by (simp add: demo_eval)

subsection \<open>C6: deactivation and the handles\<close>

text \<open>
  Claim C6, amended. \<^verbatim>\<open>on_deactivate\<close> leaves \<^verbatim>\<open>joint_handles_\<close> as it was: the
  controller keeps every claimed handle across deactivation, and a cycle run after it
  does what it would have done before it. (The source defines no cleanup callback.)
\<close>

theorem on_deactivate_keeps_handles:
  "joint_handles (fst (snd (on_deactivate previous_state c e))) = joint_handles c
   \<and> update ops (fst (snd (on_deactivate previous_state c e)))
        (snd (snd (on_deactivate previous_state c e))) = update ops c e"
  by (simp add: on_deactivate_def)

text \<open>
  Claim C6 as stated fails: after \<^verbatim>\<open>on_deactivate\<close> the configured example controller
  still holds its three handles, the world is untouched (nothing was released), and
  the next cycle writes through all three.
\<close>

theorem on_deactivate_releases_nothing_counterexample:
  "joint_handles (fst (snd (on_deactivate PRIMARY_STATE_ACTIVE demo_controller demo_world3))) =
     [''j1'', ''j2'', ''j3'']
   \<and> snd (snd (on_deactivate PRIMARY_STATE_ACTIVE demo_controller demo_world3)) = demo_world3
   \<and> snd (snd (update demo
        (commands_callback [1, 2, 3]
           (fst (snd (on_deactivate PRIMARY_STATE_ACTIVE demo_controller demo_world3))))
        (snd (snd (on_deactivate PRIMARY_STATE_ACTIVE demo_controller demo_world3))))) =
      demo_world3\<lparr>writes := [(''j1'', [1], [''velocity'']), (''j2'', [2], [''velocity'']),
                              (''j3'', [3], [''velocity''])]\<rparr>"
  by (simp add: on_deactivate_def demo_eval)

subsection \<open>C7: activation and deactivation change nothing\<close>

text \<open>
  Claim C7. \<^verbatim>\<open>on_activate\<close> and \<^verbatim>\<open>on_deactivate\<close> return SUCCESS for every previous
  state, and return the controller (handles, interfaces, mailbox, subscription) and
  the world (so the registry too) exactly as they were given.
\<close>

theorem activate_deactivate_change_nothing:
  "on_activate previous_state c e = (CallbackReturn_SUCCESS, c, e)
   \<and> on_deactivate previous_state c e = (CallbackReturn_SUCCESS, c, e)"
  by (simp add: on_activate_def on_deactivate_def)

subsection \<open>C8: handles aligned with the joint names\<close>

text \<open>
  Claim C8 says that after every \<^verbatim>\<open>on_configure\<close> run that returns SUCCESS,
  \<^verbatim>\<open>joint_handles_\<close> is as long as the list of joint names and holds at each index
  the handle claimed for the name at that index. The code appends the new handles to
  those it already holds. First conjunct: a configure for \<open>j1\<close> succeeds on a new
  controller. Second: a configure for \<open>j2\<close> on the result succeeds and leaves two
  handles, the first of them the handle of \<open>j1\<close>. Third: that is one handle more than
  there are joint names. Fourth: a message with one value for the one configured
  joint is then refused by \<^verbatim>\<open>update\<close>, which takes the number of handles for the
  number of joints.
\<close>

theorem on_configure_twice_appends_handles:
  "on_configure demo (demo_node [''j1''] ''velocity'') PRIMARY_STATE_UNCONFIGURED
     ForwardCommandControllerNewComponents demo_world0 =
     Inr (CallbackReturn_SUCCESS,
          \<lparr>joint_handles = [''j1''], interfaces = [''velocity''], rt_command_ptr = None,
           joints_command_subscriber = Some ''commands''\<rparr>,
          \<lparr>claims = [(''j1'', [''velocity''])], writes = []\<rparr>)
   \<and> on_configure demo (demo_node [''j2''] ''velocity'') PRIMARY_STATE_UNCONFIGURED
        \<lparr>joint_handles = [''j1''], interfaces = [''velocity''], rt_command_ptr = None,
         joints_command_subscriber = Some ''commands''\<rparr>
        \<lparr>claims = [(''j1'', [''velocity''])], writes = []\<rparr> =
     Inr (CallbackReturn_SUCCESS,
          \<lparr>joint_handles = [''j1'', ''j2''], interfaces = [''velocity'', ''velocity''],
           rt_command_ptr = None, joints_command_subscriber = Some ''commands''\<rparr>,
          \<lparr>claims = [(''j1'', [''velocity'']), (''j2'', [''velocity'', ''velocity''])],
           writes = []\<rparr>)
   \<and> length [''j1'', ''j2''] \<noteq> length [''j2'']
   \<and> update demo
        (commands_callback [1]
           \<lparr>joint_handles = [''j1'', ''j2''], interfaces = [''velocity'', ''velocity''],
            rt_command_ptr = None, joints_command_subscriber = Some ''commands''\<rparr>)
        \<lparr>claims = [(''j1'', [''velocity'']), (''j2'', [''velocity'', ''velocity''])],
         writes = []\<rparr> =
       (ERROR,
        commands_callback [1]
           \<lparr>joint_handles = [''j1'', ''j2''], interfaces = [''velocity'', ''velocity''],
            rt_command_ptr = None, joints_command_subscriber = Some ''commands''\<rparr>,
        \<lparr>claims = [(''j1'', [''velocity'']), (''j2'', [''velocity'', ''velocity''])],
         writes = []\<rparr>)"
  by (simp add: demo_eval)

subsection \<open>C9: the codes returned by the writes\<close>

text \<open>
  Claim C9. When the message is as long as the handle vector, \<^verbatim>\<open>update\<close> returns
  SUCCESS, and its whole result (return code, members, world after all the writes)
  is the same for any two collaborators whose \<^verbatim>\<open>set_command\<close> has the same effect on
  the world, whatever codes they return: a failed write neither stops the remaining
  writes nor changes the code of the cycle.
\<close>

theorem update_ignores_write_results:
  assumes "rt_command_ptr c = Some joint_commands"
    and "length joint_commands = length (joint_handles c)"
    and "\<forall>h d w. snd (set_command ops' h d (interfaces c) w) =
                  snd (set_command ops h d (interfaces c) w)"
  shows "fst (update ops c e) = SUCCESS \<and> update ops' c e = update ops c e"
  using assms update_agree [OF assms(3), of e] by (simp add: update_def)

text \<open>
  An instance: the example joints against joints that do the same writes and report
  a failure every time.
\<close>

theorem update_ignores_write_results_witness:
  "rt_command_ptr (commands_callback [1, 2, 3] demo_controller) = Some [1, 2, 3]
   \<and> length [1, 2, 3 :: real] = length (joint_handles (commands_callback [1, 2, 3] demo_controller))
   \<and> (\<forall>h d w. set_command demo_failing h d
                  (interfaces (commands_callback [1, 2, 3] demo_controller)) w =
                (NOT_OK, snd (set_command demo h d
                  (interfaces (commands_callback [1, 2, 3] demo_controller)) w)))
   \<and> fst (update demo (commands_callback [1, 2, 3] demo_controller) demo_world3) = SUCCESS
   \<and> update demo_failing (commands_callback [1, 2, 3] demo_controller) demo_world3 =
       update demo (commands_callback [1, 2, 3] demo_controller) demo_world3"
proof -
  let ?c = "commands_callback [1, 2, 3] demo_controller :: (string, real) controller"
  have h1: "rt_command_ptr ?c = Some [1, 2, 3]"
    by (simp add: commands_callback_def)
  have h2: "length [1, 2, 3 :: real] = length (joint_handles ?c)"
    by (simp add: commands_callback_def demo_controller_def)
  have f: "\<forall>h d w. set_command demo_failing h d (interfaces ?c) w =
                   (NOT_OK, snd (set_command demo h d (interfaces ?c) w))"
    by (simp add: demo_failing_def)
  have h3: "\<forall>h d w. snd (set_command demo_failing h d (interfaces ?c) w) =
                    snd (set_command demo h d (interfaces ?c) w)"
    by (simp add: demo_failing_def)
  note t = update_ignores_write_results [OF h1 h2 h3, of demo_world3]
  show ?thesis by (intro conjI h1 h2 f t [THEN conjunct1] t [THEN conjunct2])
qed

subsection \<open>C10: the interface vector only grows\<close>

text \<open>
  Claim C10. For a node whose two parameters are set, well typed and not empty:
  \<^item> \<^verbatim>\<open>on_configure\<close> returns (whatever the code) with the interface name appended to
    \<^verbatim>\<open>interfaces_\<close>;
  \<^item> every call on the controller keeps the former contents of \<^verbatim>\<open>interfaces_\<close> as a
    prefix;
  \<^item> after any sequence of calls on a new controller, \<^verbatim>\<open>interfaces_\<close> has one entry
    for each configure call that passed the parameter checks;
  \<^item> the registry is consulted with the grown vector only: collaborators that agree
    on availability and claims for that vector give the same \<^verbatim>\<open>on_configure\<close>;
  \<^item> the joints are written with the vector held only: collaborators whose
    \<^verbatim>\<open>set_command\<close> agrees in effect for that vector give the same \<^verbatim>\<open>update\<close>.
\<close>

theorem interfaces_accumulate:
  assumes "get_parameter node ''joints'' = Some (PARAMETER_STRING_ARRAY names)"
    and "names \<noteq> []"
    and "get_parameter node ''interface_name'' = Some (PARAMETER_STRING iface)"
    and "iface \<noteq> []"
  shows "(\<exists>r c' e'. on_configure ops node prev c e = Inr (r, c', e')
            \<and> interfaces c' = interfaces c @ [iface])
       \<and> take (length (interfaces (fst s))) (interfaces (fst (step ops x s))) = interfaces (fst s)
       \<and> length (interfaces (fst (run ops calls (ForwardCommandControllerNewComponents, e0)))) =
           length (filter counts_as_configure calls)
       \<and> (lock ops' e = lock ops e
            \<and> (\<forall>n. check_command_interfaces ops' n (interfaces c @ [iface]) e =
                     check_command_interfaces ops n (interfaces c @ [iface]) e)
            \<and> (\<forall>n w. claim_command_handle ops' n (interfaces c @ [iface]) w =
                       claim_command_handle ops n (interfaces c @ [iface]) w)
          \<longrightarrow> on_configure ops' node prev c e = on_configure ops node prev c e)
       \<and> ((\<forall>h d w. snd (set_command ops' h d (interfaces c) w) =
                     snd (set_command ops h d (interfaces c) w))
          \<longrightarrow> update ops' c e = update ops c e)"
proof (intro conjI impI)
  from on_configure_appends [OF assms, of ops prev c e]
  show "\<exists>r c' e'. on_configure ops node prev c e = Inr (r, c', e')
          \<and> interfaces c' = interfaces c @ [iface]"
    by blast
next
  show "take (length (interfaces (fst s))) (interfaces (fst (step ops x s))) = interfaces (fst s)"
    by (rule step_keeps_interfaces)
next
  show "length (interfaces (fst (run ops calls (ForwardCommandControllerNewComponents, e0)))) =
          length (filter counts_as_configure calls)"
    by (simp add: run_interfaces_length ForwardCommandControllerNewComponents_def)
next
  assume "lock ops' e = lock ops e
     \<and> (\<forall>n. check_command_interfaces ops' n (interfaces c @ [iface]) e =
              check_command_interfaces ops n (interfaces c @ [iface]) e)
     \<and> (\<forall>n w. claim_command_handle ops' n (interfaces c @ [iface]) w =
                claim_command_handle ops n (interfaces c @ [iface]) w)"
  then show "on_configure ops' node prev c e = on_configure ops node prev c e"
    using on_configure_agree [OF assms, of ops' e ops c prev] by blast
next
  assume "\<forall>h d w. snd (set_command ops' h d (interfaces c) w) =
                  snd (set_command ops h d (interfaces c) w)"
  then show "update ops' c e = update ops c e"
    by (rule update_agree)
qed

text \<open>
  An instance: the controller configured for \<open>j1\<close> that has received a message is
  configured again, for \<open>j1\<close> and the unregistered \<open>j9\<close>; and a sequence of calls with
  three configure calls, two of which pass the parameter checks.
\<close>

theorem interfaces_accumulate_witness:
  "get_parameter (demo_node [''j1'', ''j9''] ''velocity'') ''joints'' =
     Some (PARAMETER_STRING_ARRAY [''j1'', ''j9''])
   \<and> get_parameter (demo_node [''j1'', ''j9''] ''velocity'') ''interface_name'' =
     Some (PARAMETER_STRING ''velocity'')
   \<and> (\<exists>r c' e'.
         on_configure demo (demo_node [''j1'', ''j9''] ''velocity'') PRIMARY_STATE_UNCONFIGURED
           \<lparr>joint_handles = [''j1''], interfaces = [''velocity''], rt_command_ptr = Some [1],
            joints_command_subscriber = Some ''commands''\<rparr>
           \<lparr>claims = [(''j1'', [''velocity''])], writes = []\<rparr> = Inr (r, c', e')
         \<and> interfaces c' = [''velocity''] @ [''velocity''])
   \<and> length (interfaces (fst (run demo
         [Configure (demo_node [''j1'', ''j9''] ''velocity''), Activate,
          Configure (demo_node [] ''velocity''),
          Configure (demo_node [''j1''] ''velocity''), Message [1], Update, Deactivate]
         (ForwardCommandControllerNewComponents, demo_world0)))) =
       length (filter counts_as_configure
         [Configure (demo_node [''j1'', ''j9''] ''velocity''), Activate,
          Configure (demo_node [] ''velocity''),
          Configure (demo_node [''j1''] ''velocity''), Message [1 :: real], Update, Deactivate])
   \<and> length (filter counts_as_configure
         [Configure (demo_node [''j1'', ''j9''] ''velocity''), Activate,
          Configure (demo_node [] ''velocity''),
          Configure (demo_node [''j1''] ''velocity''), Message [1 :: real], Update, Deactivate]) = 2
   \<and> on_configure demo_failing (demo_node [''j1'', ''j9''] ''velocity'') PRIMARY_STATE_UNCONFIGURED
         \<lparr>joint_handles = [''j1''], interfaces = [''velocity''], rt_command_ptr = Some [1],
          joints_command_subscriber = Some ''commands''\<rparr>
           \<lparr>claims = [(''j1'', [''velocity''])], writes = []\<rparr> =
       on_configure demo (demo_node [''j1'', ''j9''] ''velocity'') PRIMARY_STATE_UNCONFIGURED
         \<lparr>joint_handles = [''j1''], interfaces = [''velocity''], rt_command_ptr = Some [1],
          joints_command_subscriber = Some ''commands''\<rparr>
           \<lparr>claims = [(''j1'', [''velocity''])], writes = []\<rparr>
   \<and> update demo_failing
         \<lparr>joint_handles = [''j1''], interfaces = [''velocity''], rt_command_ptr = Some [1],
          joints_command_subscriber = Some ''commands''\<rparr>
           \<lparr>claims = [(''j1'', [''velocity''])], writes = []\<rparr> =
       update demo
         \<lparr>joint_handles = [''j1''], interfaces = [''velocity''], rt_command_ptr = Some [1],
          joints_command_subscriber = Some ''commands''\<rparr>
           \<lparr>claims = [(''j1'', [''velocity''])], writes = []\<rparr>"
proof -
  let ?node = "demo_node [''j1'', ''j9''] ''velocity''"
  let ?c = "\<lparr>joint_handles = [''j1''], interfaces = [''velocity''], rt_command_ptr = Some [1 :: real],
             joints_command_subscriber = Some ''commands''\<rparr> :: (string, real) controller"
  let ?e = "\<lparr>claims = [(''j1'', [''velocity''])], writes = []\<rparr>"
  let ?calls = "[Configure ?node, Activate, Configure (demo_node [] ''velocity''),
                 Configure (demo_node [''j1''] ''velocity''), Message [1 :: real], Update,
                 Deactivate]"
  have h1: "get_parameter ?node ''joints'' = Some (PARAMETER_STRING_ARRAY [''j1'', ''j9''])"
    by (simp add: demo_node_def)
  have h2: "[''j1'', ''j9''] \<noteq> []" by simp
  have h3: "get_parameter ?node ''interface_name'' = Some (PARAMETER_STRING ''velocity'')"
    by (simp add: demo_node_def)
  have h4: "''velocity'' \<noteq> []" by simp
  note t = interfaces_accumulate [OF h1 h2 h3 h4, of demo PRIMARY_STATE_UNCONFIGURED ?c
      ?e "(?c, ?e)" "Configure ?node" ?calls demo_world0 demo_failing]
  have a: "\<exists>r c' e'. on_configure demo ?node PRIMARY_STATE_UNCONFIGURED ?c ?e =
              Inr (r, c', e') \<and> interfaces c' = [''velocity''] @ [''velocity'']"
    using t [THEN conjunct1] by simp
  note b = t [THEN conjunct2, THEN conjunct2, THEN conjunct1]
  have n: "length (filter counts_as_configure ?calls) = 2"
    by (simp add: passes_parameter_checks_def demo_node_def)
  have g1: "lock demo_failing ?e = lock demo ?e
     \<and> (\<forall>n. check_command_interfaces demo_failing n (interfaces ?c @ [''velocity'']) ?e =
              check_command_interfaces demo n (interfaces ?c @ [''velocity'']) ?e)
     \<and> (\<forall>n w. claim_command_handle demo_failing n (interfaces ?c @ [''velocity'']) w =
                claim_command_handle demo n (interfaces ?c @ [''velocity'']) w)"
    by (simp add: demo_failing_def)
  from t [THEN conjunct2, THEN conjunct2, THEN conjunct2, THEN conjunct1] g1
  have d: "on_configure demo_failing ?node PRIMARY_STATE_UNCONFIGURED ?c ?e =
           on_configure demo ?node PRIMARY_STATE_UNCONFIGURED ?c ?e"
    by (rule mp)
  have g2: "\<forall>h d w. snd (set_command demo_failing h d (interfaces ?c) w) =
                    snd (set_command demo h d (interfaces ?c) w)"
    by (simp add: demo_failing_def)
  from t [THEN conjunct2, THEN conjunct2, THEN conjunct2, THEN conjunct2] g2
  have u: "update demo_failing ?c ?e = update demo ?c ?e"
    by (rule mp)
  show ?thesis by (intro conjI h1 h3 a b n d u)
qed

end
